theory Spec2Isabelle
  imports Complex_Main "HOL-Library.Word"
begin

section \<open>JavaScript values used by the audio pipeline\<close>

text \<open>
  A \<^verbatim>\<open>Uint8Array\<close> is a list of bytes. A JavaScript string is a sequence of UTF-16
  code units, so it is a list of 16-bit words; \<open>js\<close> writes an ASCII literal as such
  a string.
\<close>

type_synonym byte = "8 word"
type_synonym jschar = "16 word"
type_synonym jsstring = "jschar list"

definition js :: "string \<Rightarrow> jsstring" where
  "js s = map (\<lambda>c. of_nat (of_char c)) s"

text \<open>The exceptions the modelled code can meet.\<close>

datatype js_error =
    InvalidCharacterError  \<comment> \<open>\<^verbatim>\<open>btoa\<close> and \<^verbatim>\<open>atob\<close> on a bad string\<close>
  | RangeError             \<comment> \<open>\<^verbatim>\<open>new Int16Array(buffer)\<close> on an odd byte length\<close>
  | NotSupportedError      \<comment> \<open>\<^verbatim>\<open>createBuffer\<close> with no frame\<close>
  | NotAllowedError        \<comment> \<open>\<^verbatim>\<open>getUserMedia\<close> refused\<close>

section \<open>The platform's base64 functions\<close>

text \<open>
  \<^verbatim>\<open>btoa\<close> and \<^verbatim>\<open>atob\<close> belong to the browser, not to the repository. They are
  modelled after the HTML standard: \<^verbatim>\<open>btoa\<close> throws on a code unit above 255 and
  otherwise is the base64 encoding of RFC 4648 with padding; \<^verbatim>\<open>atob\<close> is the
  standard's forgiving-base64 decode.
\<close>

definition b64code :: "nat \<Rightarrow> nat" where
  "b64code i =
     (if i < 26 then 65 + i
      else if i < 52 then 97 + (i - 26)
      else if i < 62 then 48 + (i - 52)
      else if i = 62 then 43
      else 47)"

definition b64chr :: "nat \<Rightarrow> jschar" where
  "b64chr i = of_nat (b64code i)"

definition b64val :: "jschar \<Rightarrow> nat option" where
  "b64val c =
     (let n = unat c in
      if 65 \<le> n \<and> n \<le> 90 then Some (n - 65)
      else if 97 \<le> n \<and> n \<le> 122 then Some (n - 71)
      else if 48 \<le> n \<and> n \<le> 57 then Some (n + 4)
      else if n = 43 then Some 62
      else if n = 47 then Some 63
      else None)"

definition pad_char :: jschar where
  "pad_char = 61"

text \<open>
  Encoding, three bytes at a time: 24 bits are cut into four sextets; a rest of two
  bytes is 16 bits and two zero bits, a rest of one byte is 8 bits and four zero bits.
\<close>

fun btoa_groups :: "nat list \<Rightarrow> jsstring" where
  "btoa_groups [] = []"
| "btoa_groups [a] =
     (let n = a * 16 in [b64chr (n div 64), b64chr (n mod 64), pad_char, pad_char])"
| "btoa_groups [a, b] =
     (let n = (a * 256 + b) * 4
      in [b64chr (n div 4096), b64chr (n div 64 mod 64), b64chr (n mod 64), pad_char])"
| "btoa_groups (a # b # c # rest) =
     (let n = a * 65536 + b * 256 + c
      in [b64chr (n div 262144), b64chr (n div 4096 mod 64),
          b64chr (n div 64 mod 64), b64chr (n mod 64)] @ btoa_groups rest)"

definition btoa :: "jsstring \<Rightarrow> js_error + jsstring" where
  "btoa s =
     (if list_ex (\<lambda>c. 255 < unat c) s then Inl InvalidCharacterError
      else Inr (btoa_groups (map unat s)))"

definition is_ascii_whitespace :: "jschar \<Rightarrow> bool" where
  "is_ascii_whitespace c = (c = 9 \<or> c = 10 \<or> c = 12 \<or> c = 13 \<or> c = 32)"

text \<open>If the length is a multiple of four, one or two trailing \<^verbatim>\<open>=\<close> are removed.\<close>

definition strip_padding :: "jsstring \<Rightarrow> jsstring" where
  "strip_padding d =
     (if length d mod 4 = 0 then
        (case rev d of
           p # q # r \<Rightarrow>
             if p = pad_char \<and> q = pad_char then rev r
             else if p = pad_char then rev (q # r)
             else d
         | [p] \<Rightarrow> if p = pad_char then [] else d
         | [] \<Rightarrow> d)
      else d)"

text \<open>
  Decoding, four sextets at a time; a rest of two sextets is 12 bits, of which the last
  four are dropped, a rest of three is 18 bits, of which the last two are dropped.
\<close>

fun atob_groups :: "nat list \<Rightarrow> nat list" where
  "atob_groups (a # b # c # d # rest) =
     (let n = a * 262144 + b * 4096 + c * 64 + d
      in [n div 65536, n div 256 mod 256, n mod 256] @ atob_groups rest)"
| "atob_groups [a, b, c] =
     (let n = (a * 4096 + b * 64 + c) div 4 in [n div 256, n mod 256])"
| "atob_groups [a, b] = [(a * 64 + b) div 16]"
| "atob_groups _ = []"

fun those_vals :: "jsstring \<Rightarrow> nat list option" where
  "those_vals [] = Some []"
| "those_vals (c # cs) =
     (case b64val c of
        None \<Rightarrow> None
      | Some v \<Rightarrow> (case those_vals cs of None \<Rightarrow> None | Some vs \<Rightarrow> Some (v # vs)))"

definition atob :: "jsstring \<Rightarrow> js_error + jsstring" where
  "atob s =
     (let d = strip_padding (filter (\<lambda>c. \<not> is_ascii_whitespace c) s)
      in if length d mod 4 = 1 then Inl InvalidCharacterError
         else (case those_vals d of
                 None \<Rightarrow> Inl InvalidCharacterError
               | Some vs \<Rightarrow> Inr (map of_nat (atob_groups vs))))"

section \<open>LiveChat.tsx: \<^verbatim>\<open>encode\<close> and \<^verbatim>\<open>decode\<close>\<close>

text \<open>
  \<^verbatim>\<open>encode\<close> appends \<^verbatim>\<open>String.fromCharCode(bytes[i])\<close> for every index and hands
  the string to \<^verbatim>\<open>btoa\<close>; \<^verbatim>\<open>decode\<close> calls \<^verbatim>\<open>atob\<close> and stores every
  \<^verbatim>\<open>charCodeAt(i)\<close> in a \<^verbatim>\<open>Uint8Array\<close>, which keeps the low eight bits.
\<close>

definition fromCharCode :: "byte \<Rightarrow> jschar" where
  "fromCharCode b = ucast b"

fun encode_loop :: "jsstring \<Rightarrow> byte list \<Rightarrow> jsstring" where
  "encode_loop binary [] = binary"
| "encode_loop binary (b # bytes) = encode_loop (binary @ [fromCharCode b]) bytes"

definition encode :: "byte list \<Rightarrow> js_error + jsstring" where
  "encode bytes = btoa (encode_loop [] bytes)"

definition decode :: "jsstring \<Rightarrow> js_error + byte list" where
  "decode base64 =
     (case atob base64 of
        Inl e \<Rightarrow> Inl e
      | Inr binaryString \<Rightarrow> Inr (map (\<lambda>c. ucast c) binaryString))"

section \<open>LiveChat.tsx: \<^verbatim>\<open>decodeAudioData\<close>\<close>

text \<open>
  Times and durations are JavaScript numbers; they are modelled as rationals, so the
  rounding of floating-point addition is left out. An \<^verbatim>\<open>AudioBuffer\<close> keeps its
  sample rate and, per channel, its samples; its duration is its number of frames
  divided by its sample rate.
\<close>

record audio_buffer =
  sampleRate :: nat
  channels :: "rat list list"

definition duration :: "audio_buffer \<Rightarrow> rat" where
  "duration b =
     of_nat (case channels b of [] \<Rightarrow> 0 | c # _ \<Rightarrow> length c) / of_nat (sampleRate b)"

text \<open>
  \<^verbatim>\<open>new Int16Array(data.buffer)\<close> views the bytes as little-endian 16-bit integers and
  throws a \<^verbatim>\<open>RangeError\<close> when the byte length is odd.
\<close>

fun int16_view :: "byte list \<Rightarrow> 16 word list" where
  "int16_view (lo # hi # rest) = word_cat hi lo # int16_view rest"
| "int16_view _ = []"

definition Int16Array :: "byte list \<Rightarrow> js_error + 16 word list" where
  "Int16Array data =
     (if length data mod 2 \<noteq> 0 then Inl RangeError else Inr (int16_view data))"

text \<open>
  \<^verbatim>\<open>ctx.createBuffer\<close> throws a \<^verbatim>\<open>NotSupportedError\<close> when the number of channels,
  the number of frames or the sample rate is zero (the upper limits of the Web Audio
  API, which depend on the browser, are left out). The two loops fill every channel
  with \<^verbatim>\<open>dataInt16[i * numChannels + channel] / 32768.0\<close>.
\<close>

definition decodeAudioData :: "byte list \<Rightarrow> nat \<Rightarrow> nat \<Rightarrow> js_error + audio_buffer" where
  "decodeAudioData data rate numChannels =
     (case Int16Array data of
        Inl e \<Rightarrow> Inl e
      | Inr dataInt16 \<Rightarrow>
          (let frameCount = length dataInt16 div numChannels
           in if numChannels = 0 \<or> frameCount = 0 \<or> rate = 0 then Inl NotSupportedError
              else Inr \<lparr>sampleRate = rate,
                        channels =
                          map (\<lambda>channel.
                                 map (\<lambda>i. of_int (sint (dataInt16 ! (i * numChannels + channel)))
                                          / 32768)
                                     [0..<frameCount])
                              [0..<numChannels]\<rparr>))"

section \<open>The resources both components hold\<close>

text \<open>
  Both components keep four references (\<^verbatim>\<open>useRef\<close>): the promise of the backend
  session, the microphone stream, the input audio context and the script processor.
  Objects are told apart by a number; \<open>fresh\<close> is the next unused one. The calls made
  on objects outside the component are recorded, in order, in \<open>effects\<close>.
\<close>

datatype context_state = Suspended | Running | Closed

record audio_context =
  ctx_id :: nat
  ctx_state :: context_state

datatype effect =
    Connect nat              \<comment> \<open>\<^verbatim>\<open>ai.live.connect\<close> called; the promise it returned\<close>
  | SessionClose nat         \<comment> \<open>\<^verbatim>\<open>session.close()\<close> chained on that promise\<close>
  | GetUserMedia             \<comment> \<open>\<^verbatim>\<open>navigator.mediaDevices.getUserMedia\<close> called\<close>
  | CaptureWired nat nat nat \<comment> \<open>stream, context, processor: the capture graph connected\<close>
  | TracksStop nat           \<comment> \<open>\<^verbatim>\<open>track.stop()\<close> on every track of the stream\<close>
  | ProcessorDisconnect nat  \<comment> \<open>\<^verbatim>\<open>scriptProcessor.disconnect()\<close>\<close>
  | ContextClose nat         \<comment> \<open>\<^verbatim>\<open>audioContext.close()\<close>\<close>
  | ConsoleError             \<comment> \<open>\<^verbatim>\<open>console.error\<close>\<close>

record refs =
  sessionRef :: "nat option"
  streamRef :: "nat option"
  audioContextRef :: "audio_context option"
  scriptProcessorRef :: "nat option"
  effects :: "effect list"
  fresh :: nat

text \<open>
  The four guarded releases with which \<^verbatim>\<open>stopConversation\<close> (LiveChat.tsx, lines
  58 to 72) and \<^verbatim>\<open>stopTranscription\<close> (unnamed/part_000, lines 163 to 177) both
  begin, line for line the same. \<^verbatim>\<open>AudioContext.close()\<close> sets the state of the
  context to \<^verbatim>\<open>closed\<close>; the reference to the context is kept.
\<close>

definition closeSession :: "'a refs_scheme \<Rightarrow> 'a refs_scheme" where
  "closeSession s =
     (case sessionRef s of
        None \<Rightarrow> s
      | Some p \<Rightarrow> s\<lparr>effects := effects s @ [SessionClose p], sessionRef := None\<rparr>)"

definition stopTracks :: "'a refs_scheme \<Rightarrow> 'a refs_scheme" where
  "stopTracks s =
     (case streamRef s of
        None \<Rightarrow> s
      | Some m \<Rightarrow> s\<lparr>effects := effects s @ [TracksStop m], streamRef := None\<rparr>)"

definition disconnectProcessor :: "'a refs_scheme \<Rightarrow> 'a refs_scheme" where
  "disconnectProcessor s =
     (case scriptProcessorRef s of
        None \<Rightarrow> s
      | Some n \<Rightarrow> s\<lparr>effects := effects s @ [ProcessorDisconnect n], scriptProcessorRef := None\<rparr>)"

definition closeContext :: "'a refs_scheme \<Rightarrow> 'a refs_scheme" where
  "closeContext s =
     (case audioContextRef s of
        None \<Rightarrow> s
      | Some c \<Rightarrow>
          if ctx_state c \<noteq> Closed
          then s\<lparr>effects := effects s @ [ContextClose (ctx_id c)],
                 audioContextRef := Some (c\<lparr>ctx_state := Closed\<rparr>)\<rparr>
          else s)"

definition release :: "'a refs_scheme \<Rightarrow> 'a refs_scheme" where
  "release s = closeContext (disconnectProcessor (stopTracks (closeSession s)))"

text \<open>
  The \<^verbatim>\<open>onopen\<close> callback of both components is an \<^verbatim>\<open>async\<close> function: it calls
  \<^verbatim>\<open>getUserMedia\<close> and is suspended at the \<^verbatim>\<open>await\<close>. When the microphone is
  granted it goes on: it stores the stream, creates the input context and the script
  processor, stores them, and connects the graph. When the microphone is refused the
  promise of the callback is rejected and nothing else happens.
\<close>

datatype mic_result = Granted | Denied js_error

definition requestMicrophone :: "'a refs_scheme \<Rightarrow> 'a refs_scheme" where
  "requestMicrophone s = s\<lparr>effects := effects s @ [GetUserMedia]\<rparr>"

definition wireCapture :: "'a refs_scheme \<Rightarrow> 'a refs_scheme" where
  "wireCapture s =
     (let stream = fresh s; inputAudioContext = fresh s + 1; scriptProcessor = fresh s + 2
      in s\<lparr>streamRef := Some stream,
            audioContextRef := Some \<lparr>ctx_id = inputAudioContext, ctx_state = Running\<rparr>,
            scriptProcessorRef := Some scriptProcessor,
            effects := effects s @ [CaptureWired stream inputAudioContext scriptProcessor],
            fresh := fresh s + 3\<rparr>)"

section \<open>LiveChat.tsx: the component\<close>

record turn =
  user :: jsstring
  model :: jsstring

definition empty_turn :: turn where
  "empty_turn = \<lparr>user = [], model = []\<rparr>"

text \<open>The state (\<^verbatim>\<open>useState\<close>) and the references of the component.\<close>

record live_chat = refs +
  isConnecting :: bool
  isActive :: bool
  transcription :: "turn list"
  currentInterim :: turn

definition live_chat_init :: live_chat where
  "live_chat_init =
     \<lparr>sessionRef = None, streamRef = None, audioContextRef = None, scriptProcessorRef = None,
      effects = [], fresh = 0,
      isConnecting = False, isActive = False, transcription = [], currentInterim = empty_turn\<rparr>"

text \<open>
  What the callbacks of one call of \<^verbatim>\<open>startConversation\<close> close over: the local
  variable \<^verbatim>\<open>nextStartTime\<close>; the constant \<^verbatim>\<open>currentInterim\<close> of the render in which
  \<^verbatim>\<open>startConversation\<close> was called, which later \<^verbatim>\<open>setCurrentInterim\<close> calls do not
  change; and the output context, of which the model keeps the sources started on it,
  each with its start time and the duration of its buffer.
\<close>

record live_session =
  nextStartTime :: rat
  capturedInterim :: turn
  scheduled :: "(rat \<times> rat) list"

definition stopConversation :: "live_chat \<Rightarrow> live_chat" where
  "stopConversation s = (release s)\<lparr>isActive := False, isConnecting := False\<rparr>"

text \<open>
  \<^verbatim>\<open>startConversation\<close>. The button calls the function of the latest render, so the
  guard reads the current \<^verbatim>\<open>isActive\<close> and \<^verbatim>\<open>isConnecting\<close>. The \<^verbatim>\<open>try\<close> block
  catches what its own statements throw (the constructors of the client and of the
  output context; \<open>setup_throws\<close> says whether they do). \<^verbatim>\<open>ai.live.connect\<close> returns
  a promise that is stored, not awaited: what happens in its callbacks is outside the
  \<^verbatim>\<open>try\<close> block. The cursor \<^verbatim>\<open>nextStartTime\<close> starts at 0, which is also the
  \<^verbatim>\<open>currentTime\<close> of the output context created on the next line.
\<close>

definition startConversation ::
    "bool \<Rightarrow> live_chat \<Rightarrow> live_session option \<times> live_chat" where
  "startConversation setup_throws s =
     (if isActive s \<or> isConnecting s then (None, s)
      else
        (let s1 = s\<lparr>isConnecting := True, transcription := [], currentInterim := empty_turn\<rparr>
         in if setup_throws
            then (None, s1\<lparr>effects := effects s1 @ [ConsoleError], isConnecting := False\<rparr>)
            else (Some \<lparr>nextStartTime = 0, capturedInterim = currentInterim s, scheduled = []\<rparr>,
                  s1\<lparr>sessionRef := Some (fresh s1),
                     effects := effects s1 @ [Connect (fresh s1)],
                     fresh := fresh s1 + 1\<rparr>)))"

definition onopen :: "live_chat \<Rightarrow> live_chat" where
  "onopen s = requestMicrophone s"

definition onopen_resume :: "mic_result \<Rightarrow> live_chat \<Rightarrow> js_error option \<times> live_chat" where
  "onopen_resume r s =
     (case r of
        Denied e \<Rightarrow> (Some e, s)
      | Granted \<Rightarrow> (None, (wireCapture s)\<lparr>isConnecting := False, isActive := True\<rparr>))"

text \<open>
  A message of the backend: the text of the input and of the output transcription when
  present, the turn-complete mark, and the base64 data of the first part of the model
  turn when present.
\<close>

record server_message =
  inputTranscription :: "jsstring option"
  outputTranscription :: "jsstring option"
  turnComplete :: bool
  inlineData :: "jsstring option"

text \<open>
  \<^verbatim>\<open>onmessage\<close>, called with the value of \<^verbatim>\<open>outputAudioContext.currentTime\<close> at the
  call. The state setters with an updater (\<^verbatim>\<open>prev => ...\<close>) work on the current
  state; the turn appended on a turn-complete mark is the \<^verbatim>\<open>currentInterim\<close> the callback
  closed over. An empty data string is falsy. An exception of \<^verbatim>\<open>decode\<close> or of
  \<^verbatim>\<open>decodeAudioData\<close> rejects the promise of this call, after \<^verbatim>\<open>nextStartTime\<close> was
  raised to the current time. \<^verbatim>\<open>decodeAudioData\<close> awaits nothing itself, so the
  promise awaited at line 145 is settled already and the rest of the call follows in
  the next microtask; the model takes the call as one step. The result is the
  exception, if any, the session and the state of the component.
\<close>

definition onmessage ::
    "live_session \<Rightarrow> rat \<Rightarrow> server_message \<Rightarrow> live_chat
      \<Rightarrow> js_error option \<times> live_session \<times> live_chat" where
  "onmessage cl currentTime message s =
     (let s1 = (case inputTranscription message of
                  None \<Rightarrow> s
                | Some text \<Rightarrow>
                    s\<lparr>currentInterim :=
                        (currentInterim s)\<lparr>user := user (currentInterim s) @ text\<rparr>\<rparr>);
          s2 = (case outputTranscription message of
                  None \<Rightarrow> s1
                | Some text \<Rightarrow>
                    s1\<lparr>currentInterim :=
                         (currentInterim s1)\<lparr>model := model (currentInterim s1) @ text\<rparr>\<rparr>);
          s3 = (if turnComplete message
                then s2\<lparr>transcription := transcription s2 @ [capturedInterim cl],
                        currentInterim := empty_turn\<rparr>
                else s2)
      in case inlineData message of
           None \<Rightarrow> (None, cl, s3)
         | Some base64Audio \<Rightarrow>
             if base64Audio = [] then (None, cl, s3)
             else
               (let cl1 = cl\<lparr>nextStartTime := max (nextStartTime cl) currentTime\<rparr>
                in case decode base64Audio of
                     Inl e \<Rightarrow> (Some e, cl1, s3)
                   | Inr data \<Rightarrow>
                       (case decodeAudioData data 24000 1 of
                          Inl e \<Rightarrow> (Some e, cl1, s3)
                        | Inr audioBuffer \<Rightarrow>
                            (None,
                             cl1\<lparr>scheduled :=
                                   scheduled cl1 @ [(nextStartTime cl1, duration audioBuffer)],
                                 nextStartTime := nextStartTime cl1 + duration audioBuffer\<rparr>,
                             s3))))"

definition onerror :: "live_chat \<Rightarrow> live_chat" where
  "onerror s = stopConversation (s\<lparr>effects := effects s @ [ConsoleError]\<rparr>)"

definition onclose :: "live_chat \<Rightarrow> live_chat" where
  "onclose s = stopConversation s"

definition unmount :: "live_chat \<Rightarrow> live_chat" where
  "unmount s = stopConversation s"

text \<open>
  The messages of one session in arrival order, each with the current time of the
  output context. Every call of \<^verbatim>\<open>onmessage\<close> is a promise of its own: a rejected one
  does not keep the later ones from running.
\<close>

fun run_messages ::
    "live_session \<Rightarrow> live_chat \<Rightarrow> (rat \<times> server_message) list \<Rightarrow> live_session \<times> live_chat" where
  "run_messages cl s [] = (cl, s)"
| "run_messages cl s ((t, m) # ms) =
     (case onmessage cl t m s of (e, cl', s') \<Rightarrow> run_messages cl' s' ms)"

section \<open>The Transcriber component\<close>

text \<open>
  The state of the Transcriber (unnamed/part_000, from line 138). Its interim text is
  called \<^verbatim>\<open>transcription\<close> in the source; the name is taken by the transcript log of
  LiveChat, so it is \<open>transcriptionT\<close> here.
\<close>

record transcriber = refs +
  isRecording :: bool
  transcriptionT :: jsstring
  finalizedTranscription :: jsstring

definition transcriber_init :: transcriber where
  "transcriber_init =
     \<lparr>sessionRef = None, streamRef = None, audioContextRef = None, scriptProcessorRef = None,
      effects = [], fresh = 0,
      isRecording = False, transcriptionT = [], finalizedTranscription = []\<rparr>"

text \<open>
  \<^verbatim>\<open>stopTranscription\<close> is made by \<^verbatim>\<open>useCallback\<close> with the dependency
  \<^verbatim>\<open>transcription\<close>: every instance closes over the \<^verbatim>\<open>transcription\<close> of the render
  that made it, the first argument here. The button uses the instance of the latest
  render, which holds the current text. The callbacks of a session hold the instance of
  the render in which \<^verbatim>\<open>startTranscription\<close> was called, and the cleanup of the
  mount effect (dependencies \<^verbatim>\<open>[]\<close>) holds the instance of the first render, whose
  text is empty.
\<close>

definition stopTranscription :: "jsstring \<Rightarrow> transcriber \<Rightarrow> transcriber" where
  "stopTranscription captured s =
     (release s)\<lparr>isRecording := False,
                 finalizedTranscription := finalizedTranscription s @ captured,
                 transcriptionT := []\<rparr>"

definition clickStop :: "transcriber \<Rightarrow> transcriber" where
  "clickStop s = stopTranscription (transcriptionT s) s"

definition unmountT :: "transcriber \<Rightarrow> transcriber" where
  "unmountT s = stopTranscription [] s"

record transcriber_session =
  capturedTranscription :: jsstring

definition startTranscription ::
    "bool \<Rightarrow> transcriber \<Rightarrow> transcriber_session option \<times> transcriber" where
  "startTranscription setup_throws s =
     (if isRecording s then (None, s)
      else if setup_throws
      then (None, s\<lparr>effects := effects s @ [ConsoleError], isRecording := False\<rparr>)
      else (Some \<lparr>capturedTranscription = transcriptionT s\<rparr>,
            s\<lparr>sessionRef := Some (fresh s),
               effects := effects s @ [Connect (fresh s)],
               fresh := fresh s + 1\<rparr>))"

definition onopenT :: "transcriber \<Rightarrow> transcriber" where
  "onopenT s = requestMicrophone s"

definition onopenT_resume :: "mic_result \<Rightarrow> transcriber \<Rightarrow> js_error option \<times> transcriber" where
  "onopenT_resume r s =
     (case r of
        Denied e \<Rightarrow> (Some e, s)
      | Granted \<Rightarrow> (None, (wireCapture s)\<lparr>isRecording := True\<rparr>))"

definition onmessageT :: "transcriber_session \<Rightarrow> server_message \<Rightarrow> transcriber \<Rightarrow> transcriber" where
  "onmessageT cl message s =
     (let s1 = (case inputTranscription message of
                  None \<Rightarrow> s
                | Some text \<Rightarrow> s\<lparr>transcriptionT := transcriptionT s @ text\<rparr>)
      in if turnComplete message
         then s1\<lparr>finalizedTranscription := finalizedTranscription s1 @ capturedTranscription cl,
                 transcriptionT := []\<rparr>
         else s1)"

definition onerrorT :: "transcriber_session \<Rightarrow> transcriber \<Rightarrow> transcriber" where
  "onerrorT cl s =
     stopTranscription (capturedTranscription cl) (s\<lparr>effects := effects s @ [ConsoleError]\<rparr>)"

definition oncloseT :: "transcriber \<Rightarrow> transcriber" where
  "oncloseT s = s\<lparr>isRecording := False\<rparr>"

section \<open>Notions the properties are stated with\<close>

subsection \<open>Messages\<close>

definition input_delta :: "jsstring \<Rightarrow> server_message" where
  "input_delta text =
     \<lparr>inputTranscription = Some text, outputTranscription = None, turnComplete = False,
      inlineData = None\<rparr>"

definition output_delta :: "jsstring \<Rightarrow> server_message" where
  "output_delta text =
     \<lparr>inputTranscription = None, outputTranscription = Some text, turnComplete = False,
      inlineData = None\<rparr>"

definition turn_complete :: server_message where
  "turn_complete =
     \<lparr>inputTranscription = None, outputTranscription = None, turnComplete = True,
      inlineData = None\<rparr>"

definition audio_chunk :: "jsstring \<Rightarrow> server_message" where
  "audio_chunk base64Audio =
     \<lparr>inputTranscription = None, outputTranscription = None, turnComplete = False,
      inlineData = Some base64Audio\<rparr>"

text \<open>A message has audio when its data string is there and not empty.\<close>

definition has_audio :: "server_message \<Rightarrow> bool" where
  "has_audio m = (case inlineData m of None \<Rightarrow> False | Some b \<Rightarrow> b \<noteq> [])"

text \<open>
  The buffer the audio of a message decodes to, or the exception of the decoding (for a
  message that has audio; without data the value is of no use).
\<close>

definition decoded_audio :: "server_message \<Rightarrow> js_error + audio_buffer" where
  "decoded_audio m =
     (case inlineData m of
        None \<Rightarrow> Inl InvalidCharacterError
      | Some b \<Rightarrow> (case decode b of Inl e \<Rightarrow> Inl e | Inr d \<Rightarrow> decodeAudioData d 24000 1))"

subsection \<open>Playback schedules\<close>

text \<open>
  A schedule lists the sources in the order they were started, each as its start time
  and its duration. It has no overlap when every source starts no earlier than the one
  before it ends.
\<close>

fun no_overlap :: "(rat \<times> rat) list \<Rightarrow> bool" where
  "no_overlap [] = True"
| "no_overlap [x] = True"
| "no_overlap ((t1, d1) # (t2, d2) # r) = (t1 + d1 \<le> t2 \<and> no_overlap ((t2, d2) # r))"

text \<open>
  There is no underrun in a run of messages when every message with audio arrives
  while the cursor is not behind the clock.
\<close>

fun no_underrun :: "live_session \<Rightarrow> live_chat \<Rightarrow> (rat \<times> server_message) list \<Rightarrow> bool" where
  "no_underrun cl s [] = True"
| "no_underrun cl s ((t, m) # ms) =
     ((if has_audio m then t \<le> nextStartTime cl else True)
      \<and> (case onmessage cl t m s of (e, cl', s') \<Rightarrow> no_underrun cl' s' ms))"

subsection \<open>Teardown sequences\<close>

text \<open>
  The teardown sequence of a state: the release of every resource it holds, in the
  order backend session, microphone tracks, capture node, audio context.
\<close>

definition teardown_sequence :: "'a refs_scheme \<Rightarrow> effect list" where
  "teardown_sequence s =
     (case sessionRef s of None \<Rightarrow> [] | Some p \<Rightarrow> [SessionClose p])
     @ (case streamRef s of None \<Rightarrow> [] | Some m \<Rightarrow> [TracksStop m])
     @ (case scriptProcessorRef s of None \<Rightarrow> [] | Some n \<Rightarrow> [ProcessorDisconnect n])
     @ (case audioContextRef s of
          None \<Rightarrow> []
        | Some c \<Rightarrow> if ctx_state c = Closed then [] else [ContextClose (ctx_id c)])"

subsection \<open>Scenarios\<close>

text \<open>
  LiveChat from its first render: the start button is pressed (\<open>connecting0\<close>, with the
  session \<open>session0\<close>), the backend opens and the microphone is granted (\<open>active0\<close>).
\<close>

definition session0 :: live_session where
  "session0 = \<lparr>nextStartTime = 0, capturedInterim = empty_turn, scheduled = []\<rparr>"

definition connecting0 :: live_chat where
  "connecting0 = snd (startConversation False live_chat_init)"

definition active0 :: live_chat where
  "active0 = snd (onopen_resume Granted (onopen connecting0))"

text \<open>The teardown runs while the start is in flight; then the backend opens.\<close>

definition opened_after_stop :: live_chat where
  "opened_after_stop = snd (onopen_resume Granted (onopen (stopConversation connecting0)))"

text \<open>The backend opens and the microphone is refused.\<close>

definition mic_denied :: "js_error option \<times> live_chat" where
  "mic_denied = onopen_resume (Denied NotAllowedError) (onopen connecting0)"

text \<open>Scenario A of the specification: the deltas "Hel" and "lo", then turn complete.\<close>

definition hello_run :: "live_session \<times> live_chat" where
  "hello_run =
     run_messages session0 active0
       [(0, input_delta (js ''Hel'')), (0, input_delta (js ''lo'')), (0, turn_complete)]"

text \<open>The delta "Hel" arrives, then the session is stopped.\<close>

definition stopped_mid_turn :: live_chat where
  "stopped_mid_turn =
     stopConversation (snd (run_messages session0 active0 [(0, input_delta (js ''Hel''))]))"

text \<open>
  A chunk that is not base64 (one character) arrives when the clock of the output
  context shows 1.
\<close>

definition bad_chunk_run :: "js_error option \<times> live_session \<times> live_chat" where
  "bad_chunk_run = onmessage session0 1 (audio_chunk (js ''A'')) active0"

text \<open>
  Two chunks of one frame each (two zero bytes, \<^verbatim>\<open>AAA=\<close>): the first when the clock
  shows 0, the second while the first still plays.
\<close>

definition two_chunks :: "(rat \<times> server_message) list" where
  "two_chunks = [(0, audio_chunk (js ''AAA='')), (1 / 48000, audio_chunk (js ''AAA=''))]"

text \<open>The Transcriber from its first render: the record button is pressed twice.\<close>

definition recording_requested :: transcriber where
  "recording_requested = snd (startTranscription False transcriber_init)"

definition recording_requested_twice :: transcriber where
  "recording_requested_twice = snd (startTranscription False recording_requested)"

text \<open>
  The Transcriber is recording (\<open>recordingT\<close>, with the session \<open>sessionT0\<close> of the
  first press); the deltas "Hel" and "lo" arrive, then turn complete.
\<close>

definition sessionT0 :: transcriber_session where
  "sessionT0 = \<lparr>capturedTranscription = []\<rparr>"

definition recordingT :: transcriber where
  "recordingT = snd (onopenT_resume Granted (onopenT recording_requested))"

definition hello_runT :: transcriber where
  "hello_runT =
     onmessageT sessionT0 turn_complete
       (onmessageT sessionT0 (input_delta (js ''lo''))
          (onmessageT sessionT0 (input_delta (js ''Hel'')) recordingT))"

text \<open>
  The Transcriber has heard "Hel" when the backend closes the session, which leaves the
  text in the buffer and the button on "record" (\<open>closed_remotelyT\<close>). Recording is
  started again, so the callbacks of the second session, among them its instance of
  \<^verbatim>\<open>stopTranscription\<close>, close over "Hel" (\<open>sessionT1\<close>); the backend opens and the
  microphone is granted (\<open>recording_againT\<close>). The stop button is pressed
  (\<open>stopped_onceT\<close>), and then an error of the second session arrives
  (\<open>stopped_twiceT\<close>).
\<close>

definition sessionT1 :: transcriber_session where
  "sessionT1 = \<lparr>capturedTranscription = js ''Hel''\<rparr>"

definition closed_remotelyT :: transcriber where
  "closed_remotelyT = oncloseT (onmessageT sessionT0 (input_delta (js ''Hel'')) recordingT)"

definition recording_againT :: transcriber where
  "recording_againT =
     snd (onopenT_resume Granted (onopenT (snd (startTranscription False closed_remotelyT))))"

definition stopped_onceT :: transcriber where
  "stopped_onceT = clickStop recording_againT"

definition stopped_twiceT :: transcriber where
  "stopped_twiceT = onerrorT sessionT1 stopped_onceT"

subsection \<open>Auxiliary functions of the base64 proof\<close>

text \<open>The sextets and the padding \<^const>\<open>btoa_groups\<close> produces, apart.\<close>

fun sextets :: "nat list \<Rightarrow> nat list" where
  "sextets [] = []"
| "sextets [a] = (let n = a * 16 in [n div 64, n mod 64])"
| "sextets [a, b] = (let n = (a * 256 + b) * 4 in [n div 4096, n div 64 mod 64, n mod 64])"
| "sextets (a # b # c # rest) =
     (let n = a * 65536 + b * 256 + c
      in [n div 262144, n div 4096 mod 64, n div 64 mod 64, n mod 64] @ sextets rest)"

fun padding :: "nat list \<Rightarrow> jsstring" where
  "padding [] = []"
| "padding [a] = [pad_char, pad_char]"
| "padding [a, b] = [pad_char]"
| "padding (a # b # c # rest) = padding rest"

section \<open>Base64: decoding inverts encoding\<close>

subsection \<open>Arithmetic of the groups\<close>

lemma recombine4:
  fixes n :: nat
  shows "n div 262144 * 262144 + n div 4096 mod 64 * 4096 + n div 64 mod 64 * 64 + n mod 64 = n"
proof -
  have a: "n div 4096 = n div 64 div 64" and b: "n div 262144 = n div 64 div 64 div 64"
    by (simp_all add: div_mult2_eq [symmetric])
  define m where "m = n div 64"
  define p where "p = m div 64"
  have 1: "n = m * 64 + n mod 64" by (simp add: m_def)
  have 2: "m = p * 64 + m mod 64" by (simp add: p_def)
  have "p * 4096 = (p div 64 * 64 + p mod 64) * 4096" by simp
  also have "\<dots> = p div 64 * 64 * 4096 + p mod 64 * 4096" by (rule distrib_right)
  also have "p div 64 * 64 * 4096 = p div 64 * 262144" by (simp add: mult.assoc)
  finally have 4: "p * 4096 = p div 64 * 262144 + p mod 64 * 4096" .
  have "n div 262144 * 262144 + n div 4096 mod 64 * 4096 + n div 64 mod 64 * 64 + n mod 64
      = p div 64 * 262144 + p mod 64 * 4096 + m mod 64 * 64 + n mod 64"
    by (simp add: a b m_def p_def)
  also have "\<dots> = p * 4096 + m mod 64 * 64 + n mod 64" using 4 by simp
  also have "\<dots> = (p * 64 + m mod 64) * 64 + n mod 64" by (simp add: algebra_simps)
  also have "\<dots> = n" using 1 2 by simp
  finally show ?thesis .
qed

lemma recombine3:
  fixes n :: nat
  assumes "n mod 4 = 0"
  shows "(n div 4096 * 4096 + n div 64 mod 64 * 64 + n mod 64) div 4 = n div 4"
proof -
  have a: "n div 4096 = n div 64 div 64" by (simp add: div_mult2_eq [symmetric])
  define m where "m = n div 64"
  have "m * 64 = (m div 64 * 64 + m mod 64) * 64" by simp
  also have "\<dots> = m div 64 * 64 * 64 + m mod 64 * 64" by (rule distrib_right)
  also have "m div 64 * 64 * 64 = m div 64 * 4096" by (simp add: mult.assoc)
  finally have 1: "m * 64 = m div 64 * 4096 + m mod 64 * 64" .
  have "n div 4096 * 4096 + n div 64 mod 64 * 64 + n mod 64 = m * 64 + n mod 64"
    using 1 by (simp add: a m_def)
  also have "\<dots> = n" by (simp add: m_def)
  finally show ?thesis by simp
qed

lemma recombine2:
  fixes n :: nat
  shows "(n div 64 * 64 + n mod 64) div 16 = n div 16"
  by simp

lemma div_mod_base:
  fixes q r :: nat
  assumes "r < k"
  shows "(q * k + r) div k = q" and "(q * k + r) mod k = r"
  using assms by simp_all

lemma bytes3:
  fixes a b c :: nat
  assumes "a < 256" "b < 256" "c < 256"
  shows "(a * 65536 + b * 256 + c) div 65536 = a"
    and "(a * 65536 + b * 256 + c) div 256 mod 256 = b"
    and "(a * 65536 + b * 256 + c) mod 256 = c"
    and "(a * 65536 + b * 256 + c) div 262144 < 64"
proof -
  have "b * 256 + c < 65536" using assms by simp
  then have "(a * 65536 + (b * 256 + c)) div 65536 = a" by (rule div_mod_base)
  then show "(a * 65536 + b * 256 + c) div 65536 = a" by (simp only: add.assoc)
  have e: "a * 65536 + b * 256 + c = (a * 256 + b) * 256 + c" by simp
  have d: "((a * 256 + b) * 256 + c) div 256 = a * 256 + b"
    using assms(3) by (rule div_mod_base)
  have "(a * 256 + b) mod 256 = b" using assms(2) by (rule div_mod_base)
  then show "(a * 65536 + b * 256 + c) div 256 mod 256 = b" by (simp only: e d)
  have "((a * 256 + b) * 256 + c) mod 256 = c" using assms(3) by (rule div_mod_base)
  then show "(a * 65536 + b * 256 + c) mod 256 = c" by (simp only: e)
  have "a * 65536 + b * 256 + c < 64 * 262144" using assms by simp
  then show "(a * 65536 + b * 256 + c) div 262144 < 64"
    by (rule less_mult_imp_div_less)
qed

lemma bytes2:
  fixes a b :: nat
  assumes "a < 256" "b < 256"
  shows "(a * 256 + b) * 4 div 4 div 256 = a"
    and "(a * 256 + b) * 4 div 4 mod 256 = b"
    and "(a * 256 + b) * 4 div 4096 < 64"
proof -
  have e: "(a * 256 + b) * 4 div 4 = a * 256 + b" by simp
  have "(a * 256 + b) div 256 = a" using assms(2) by (rule div_mod_base)
  then show "(a * 256 + b) * 4 div 4 div 256 = a" by (simp only: e)
  have "(a * 256 + b) mod 256 = b" using assms(2) by (rule div_mod_base)
  then show "(a * 256 + b) * 4 div 4 mod 256 = b" by (simp only: e)
  have "(a * 256 + b) * 4 < 64 * 4096" using assms by simp
  then show "(a * 256 + b) * 4 div 4096 < 64" by (rule less_mult_imp_div_less)
qed

lemma bytes1:
  fixes a :: nat
  assumes "a < 256"
  shows "a * 16 div 16 = a" and "a * 16 div 64 < 64"
proof -
  show "a * 16 div 16 = a" by simp
  have "a * 16 < 64 * 64" using assms by simp
  then show "a * 16 div 64 < 64" by (rule less_mult_imp_div_less)
qed

subsection \<open>The alphabet\<close>

lemma unat_jschar: "n < 65536 \<Longrightarrow> unat (of_nat n :: jschar) = n"
  by (simp add: unat_of_nat)

lemma b64code_less: "b64code i < 123"
  unfolding b64code_def by (simp; arith)

lemma unat_b64chr: "unat (b64chr i) = b64code i"
proof -
  have "b64code i < 65536" using b64code_less [of i] by simp
  then show ?thesis by (simp only: b64chr_def unat_jschar)
qed

lemma b64val_b64chr: "i < 64 \<Longrightarrow> b64val (b64chr i) = Some i"
proof -
  assume "i < 64"
  then consider "i < 26" | "26 \<le> i" "i < 52" | "52 \<le> i" "i < 62" | "i = 62" | "i = 63"
    by linarith
  then show ?thesis
  proof cases
    case 1
    then show ?thesis by (simp add: b64val_def unat_b64chr b64code_def)
  next
    case 2
    then have "b64code i = 71 + i" by (simp add: b64code_def)
    with 2 show ?thesis by (simp add: b64val_def unat_b64chr)
  next
    case 3
    then obtain k where k: "i = 52 + k" "k < 10"
      using le_Suc_ex by fastforce
    then have "b64code i = 48 + k" by (simp add: b64code_def)
    with k show ?thesis by (simp add: b64val_def unat_b64chr)
  next
    case 4
    then show ?thesis by (simp add: b64val_def unat_b64chr b64code_def)
  next
    case 5
    then show ?thesis by (simp add: b64val_def unat_b64chr b64code_def)
  qed
qed

lemma b64chr_not_ws: "\<not> is_ascii_whitespace (b64chr i)"
proof
  assume "is_ascii_whitespace (b64chr i)"
  then have "unat (b64chr i) \<in> {9, 10, 12, 13, 32}"
    by (auto simp: is_ascii_whitespace_def)
  then show False unfolding unat_b64chr b64code_def by (simp split: if_splits; arith)
qed

lemma pad_not_ws: "\<not> is_ascii_whitespace pad_char"
  by (simp add: is_ascii_whitespace_def pad_char_def)

lemma b64chr_not_pad: "b64chr i \<noteq> pad_char"
proof
  assume "b64chr i = pad_char"
  then have "unat (b64chr i) = 61" by (simp add: pad_char_def)
  then show False unfolding unat_b64chr b64code_def by (simp split: if_splits; arith)
qed

subsection \<open>Groups, padding and the round trip\<close>

lemma btoa_groups_split: "btoa_groups bs = map b64chr (sextets bs) @ padding bs"
  by (induction bs rule: btoa_groups.induct) (simp_all add: Let_def)

lemma sextets_bound: "list_all (\<lambda>b. b < 256) bs \<Longrightarrow> list_all (\<lambda>v. v < 64) (sextets bs)"
proof (induction bs rule: sextets.induct)
  case 1
  then show ?case by simp
next
  case (2 a)
  define n where "n = a * 16"
  have "n div 64 < 64" using 2 bytes1(2) [of a] by (simp add: n_def)
  then show ?case by (simp only: sextets.simps Let_def n_def [symmetric]) simp
next
  case (3 a b)
  define n where "n = (a * 256 + b) * 4"
  have "n div 4096 < 64" using 3 bytes2(3) [of a b] by (simp add: n_def)
  then show ?case by (simp only: sextets.simps Let_def n_def [symmetric]) simp
next
  case (4 a b c rest)
  define n where "n = a * 65536 + b * 256 + c"
  have "n div 262144 < 64" using 4(2) bytes3(4) [of a b c] by (simp add: n_def)
  moreover have "list_all (\<lambda>v. v < 64) (sextets rest)" using 4 by simp
  ultimately show ?case by (simp only: sextets.simps Let_def n_def [symmetric]) simp
qed

lemma atob_groups_sextets: "list_all (\<lambda>b. b < 256) bs \<Longrightarrow> atob_groups (sextets bs) = bs"
proof (induction bs rule: sextets.induct)
  case 1
  then show ?case by simp
next
  case (2 a)
  define n where "n = a * 16"
  have "n div 16 = a" by (simp add: n_def)
  then have "atob_groups [n div 64, n mod 64] = [a]"
    by (simp only: atob_groups.simps recombine2)
  then show ?case by (simp only: sextets.simps Let_def n_def [symmetric])
next
  case (3 a b)
  then have ab: "a < 256" "b < 256" by simp_all
  define n where "n = (a * 256 + b) * 4"
  have "n mod 4 = 0" by (simp add: n_def)
  then have r: "(n div 4096 * 4096 + n div 64 mod 64 * 64 + n mod 64) div 4 = n div 4"
    by (rule recombine3)
  have "n div 4 div 256 = a" "n div 4 mod 256 = b"
    unfolding n_def using ab by (rule bytes2)+
  then have "atob_groups [n div 4096, n div 64 mod 64, n mod 64] = [a, b]"
    by (simp only: atob_groups.simps Let_def r)
  then show ?case by (simp only: sextets.simps Let_def n_def [symmetric])
next
  case (4 a b c rest)
  then have abc: "a < 256" "b < 256" "c < 256" and rest: "atob_groups (sextets rest) = rest"
    by simp_all
  define n where "n = a * 65536 + b * 256 + c"
  have "n div 65536 = a" "n div 256 mod 256 = b" "n mod 256 = c"
    unfolding n_def using abc by (rule bytes3)+
  then have "atob_groups (n div 262144 # n div 4096 mod 64 # n div 64 mod 64 # n mod 64
               # sextets rest) = a # b # c # rest"
    by (simp only: atob_groups.simps Let_def recombine4 rest append_Cons append_Nil)
  then show ?case
    by (simp only: sextets.simps Let_def n_def [symmetric] append_Cons append_Nil)
qed

lemma padding_cases: "padding bs = [] \<or> padding bs = [pad_char] \<or> padding bs = [pad_char, pad_char]"
  by (induction bs rule: padding.induct) simp_all

lemma length_sextets: 
  "(length (sextets bs) + length (padding bs)) mod 4 = 0 \<and> length (sextets bs) mod 4 \<noteq> 1"
  by (induction bs rule: sextets.induct) (simp_all add: Let_def)

lemma strip_padding_append:
  assumes "length (xs @ p) mod 4 = 0"
    and "p = [] \<or> p = [pad_char] \<or> p = [pad_char, pad_char]"
    and "pad_char \<notin> set xs"
  shows "strip_padding (xs @ p) = xs"
proof (cases "rev xs")
  case Nil
  with assms show ?thesis by (auto simp: strip_padding_def)
next
  case (Cons y ys)
  then have xs: "xs = rev ys @ [y]" by (metis rev_rev_ident rev.simps(2))
  with assms(3) have y: "y \<noteq> pad_char" by auto
  show ?thesis
  proof (cases ys)
    case Nil
    with assms(1,2) y xs show ?thesis by (auto simp: strip_padding_def)
  next
    case (Cons z zs)
    with assms(1,2) y xs show ?thesis by (auto simp: strip_padding_def)
  qed
qed

lemma those_vals_b64chr:
  "list_all (\<lambda>v. v < 64) vs \<Longrightarrow> those_vals (map b64chr vs) = Some vs"
  by (induction vs) (simp_all add: b64val_b64chr)

lemma atob_btoa_groups:
  assumes "list_all (\<lambda>b. b < 256) bs"
  shows "atob (btoa_groups bs) = Inr (map of_nat bs)"
proof -
  let ?xs = "map b64chr (sextets bs)"
  have f: "filter (\<lambda>c. \<not> is_ascii_whitespace c) (btoa_groups bs) = btoa_groups bs"
    using padding_cases [of bs]
    by (auto simp: btoa_groups_split filter_id_conv b64chr_not_ws pad_not_ws)
  have "pad_char \<notin> set ?xs" using b64chr_not_pad by (auto simp: image_iff) metis
  moreover have "length (?xs @ padding bs) mod 4 = 0" using length_sextets [of bs] by simp
  ultimately have s: "strip_padding (btoa_groups bs) = ?xs"
    unfolding btoa_groups_split using padding_cases [of bs] by (intro strip_padding_append)
  have l: "length ?xs mod 4 \<noteq> 1" using length_sextets [of bs] by simp
  have v: "those_vals ?xs = Some (sextets bs)"
    using assms by (intro those_vals_b64chr sextets_bound)
  show ?thesis
    using l by (simp add: atob_def f s v atob_groups_sextets [OF assms])
qed

lemma encode_loop_map: "encode_loop binary bytes = binary @ map fromCharCode bytes"
  by (induction bytes arbitrary: binary) simp_all

lemma unat_byte_less: "unat (b :: byte) < 256"
proof -
  have "unat b < 2 ^ LENGTH(8)" by (rule unsigned_less)
  then show ?thesis by simp
qed

lemma unat_fromCharCode: "unat (fromCharCode b) = unat b"
proof -
  have "unat b < 2 ^ 16" using unat_byte_less [of b] by simp
  then show ?thesis by (simp add: fromCharCode_def unsigned_ucast_eq take_bit_nat_eq_self)
qed

lemma encode_eq: "encode bytes = Inr (btoa_groups (map unat bytes))"
proof -
  have "\<not> list_ex (\<lambda>c. 255 < unat c) (map fromCharCode bytes)"
  proof -
    have "unat b \<le> 255" for b :: byte using unat_byte_less [of b] by simp
    then show ?thesis by (simp add: list_ex_iff unat_fromCharCode not_less)
  qed
  then show ?thesis
    by (simp add: encode_def btoa_def encode_loop_map unat_fromCharCode comp_def)
qed

lemma ucast_byte_jschar: "(ucast (ucast b :: jschar) :: byte) = b"
  by (simp add: ucast_up_ucast_id is_up)

text \<open>
  C10. For every byte array \<open>bytes\<close>, \<^const>\<open>encode\<close> returns a string (it does not
  throw), and \<^const>\<open>decode\<close> of that string returns \<open>bytes\<close>: the base64 text
  decoding inverts the base64 text encoding of the audio frames.
\<close>

theorem decode_encode: "\<exists>s. encode bytes = Inr s \<and> decode s = Inr bytes"
proof -
  have b: "list_all (\<lambda>b. b < 256) (map unat bytes)"
    by (simp add: list_all_iff unat_byte_less)
  have "decode (btoa_groups (map unat bytes)) = Inr bytes"
    by (simp add: decode_def atob_btoa_groups [OF b] comp_def ucast_byte_jschar)
  then show ?thesis by (simp add: encode_eq)
qed

section \<open>Teardown\<close>

lemmas release_defs =
  release_def closeSession_def stopTracks_def disconnectProcessor_def closeContext_def

lemma effects_release: "effects (release s) = effects s @ teardown_sequence s"
  by (simp add: release_defs teardown_sequence_def split: option.splits)

lemma release_refs:
  "sessionRef (release s) = None"
  "streamRef (release s) = None"
  "scriptProcessorRef (release s) = None"
  "audioContextRef (release s) = map_option (\<lambda>c. c\<lparr>ctx_state := Closed\<rparr>) (audioContextRef s)"
  "fresh (release s) = fresh s"
  by (simp_all add: release_defs split: option.splits)

lemma teardown_sequence_release: "teardown_sequence (release s) = []"
  by (simp add: teardown_sequence_def release_refs split: option.splits)

lemma release_nothing:
  assumes "sessionRef s = None" "streamRef s = None" "scriptProcessorRef s = None"
    and "audioContextRef s = None \<or> (\<exists>c. audioContextRef s = Some c \<and> ctx_state c = Closed)"
  shows "release s = s"
  using assms by (auto simp: release_defs)

lemma held_after_release:
  "audioContextRef (release s) = None
   \<or> (\<exists>c. audioContextRef (release s) = Some c \<and> ctx_state c = Closed)"
  by (cases "audioContextRef s") (simp_all add: release_refs)

lemma stopConversation_idem: "stopConversation (stopConversation s) = stopConversation s"
proof -
  have "release (stopConversation s) = stopConversation s"
    using held_after_release [of s]
    by (intro release_nothing) (simp_all add: stopConversation_def release_refs)
  moreover have "stopConversation (stopConversation s) =
      (release (stopConversation s))\<lparr>isActive := False, isConnecting := False\<rparr>"
    by (rule stopConversation_def)
  ultimately have "stopConversation (stopConversation s) =
      (stopConversation s)\<lparr>isActive := False, isConnecting := False\<rparr>"
    by (simp only:)
  also have "\<dots> = stopConversation s" by (simp add: stopConversation_def)
  finally show ?thesis .
qed

lemma funpow_idem:
  assumes "\<And>x. f (f x) = f x" and "1 \<le> N"
  shows "(f ^^ N) s = f s"
  using assms(2)
proof (induction N)
  case 0
  then show ?case by simp
next
  case (Suc N)
  show ?case
  proof (cases "N = 0")
    case True
    then show ?thesis by simp
  next
    case False
    with Suc have "(f ^^ N) s = f s" by simp
    then show ?thesis by (simp add: assms(1))
  qed
qed

lemma stopTranscription_release:
  "effects (stopTranscription c t) = effects t @ teardown_sequence t"
  "teardown_sequence (stopTranscription c t) = []"
proof -
  show "effects (stopTranscription c t) = effects t @ teardown_sequence t"
    by (simp add: stopTranscription_def effects_release)
  show "teardown_sequence (stopTranscription c t) = []"
    using teardown_sequence_release [of t]
    by (simp add: stopTranscription_def teardown_sequence_def)
qed

text \<open>
  \<^const>\<open>stopConversation\<close> is idempotent: for every \<open>N \<ge> 1\<close> and from every state,
  \<open>N\<close> calls leave the state one call leaves, the calls they make on the resources are
  one teardown sequence, and a further call changes nothing.
\<close>

lemma stopConversation_funpow:
  assumes "1 \<le> N"
  shows "(stopConversation ^^ N) s = stopConversation s
       \<and> effects ((stopConversation ^^ N) s) = effects s @ teardown_sequence s
       \<and> stopConversation ((stopConversation ^^ N) s) = (stopConversation ^^ N) s
       \<and> teardown_sequence ((stopConversation ^^ N) s) = []"
proof -
  have 1: "(stopConversation ^^ N) s = stopConversation s"
    using stopConversation_idem assms by (rule funpow_idem)
  have 3: "effects (stopConversation s) = effects s @ teardown_sequence s"
    by (simp add: stopConversation_def effects_release)
  have 5: "teardown_sequence (stopConversation s) = []"
    using teardown_sequence_release [of s]
    by (simp add: stopConversation_def teardown_sequence_def)
  show ?thesis
    unfolding 1 using 3 5 stopConversation_idem [of s] by simp
qed

text \<open>
  Two calls of \<^verbatim>\<open>stopTranscription\<close>, by whichever instances: the second releases
  nothing and makes no call, but it appends the text its instance closed over, so it
  leaves the state as it is only when that text is empty.
\<close>

lemma stopTranscription_twice:
  "stopTranscription c' (stopTranscription c t) = stopTranscription (c @ c') t"
proof -
  have "release (stopTranscription c t) = stopTranscription c t"
    using held_after_release [of t]
    by (intro release_nothing) (simp_all add: stopTranscription_def release_refs)
  moreover have "stopTranscription c' (stopTranscription c t) =
      (release (stopTranscription c t))\<lparr>isRecording := False,
        finalizedTranscription := finalizedTranscription (stopTranscription c t) @ c',
        transcriptionT := []\<rparr>"
    by (rule stopTranscription_def)
  ultimately have "stopTranscription c' (stopTranscription c t) =
      (stopTranscription c t)\<lparr>isRecording := False,
        finalizedTranscription := finalizedTranscription (stopTranscription c t) @ c',
        transcriptionT := []\<rparr>"
    by (simp only:)
  also have "\<dots> = stopTranscription (c @ c') t"
    by (simp add: stopTranscription_def)
  finally show ?thesis .
qed

lemma stopTranscription_again:
  "effects (stopTranscription c' (stopTranscription c t)) = effects (stopTranscription c t)"
  "stopTranscription [] (stopTranscription c t) = stopTranscription c t"
  "c' \<noteq> [] \<Longrightarrow> stopTranscription c' (stopTranscription c t) \<noteq> stopTranscription c t"
proof -
  show "effects (stopTranscription c' (stopTranscription c t)) = effects (stopTranscription c t)"
    by (simp add: stopTranscription_release)
  show "stopTranscription [] (stopTranscription c t) = stopTranscription c t"
    by (simp add: stopTranscription_twice)
  show "stopTranscription c' (stopTranscription c t) \<noteq> stopTranscription c t" if "c' \<noteq> []"
  proof
    assume "stopTranscription c' (stopTranscription c t) = stopTranscription c t"
    then have "finalizedTranscription (stopTranscription (c @ c') t)
        = finalizedTranscription (stopTranscription c t)"
      by (simp add: stopTranscription_twice)
    with that show False by (simp add: stopTranscription_def)
  qed
qed

lemma active0_eq:
  "active0 =
     \<lparr>sessionRef = Some 0, streamRef = Some 1,
      audioContextRef = Some \<lparr>ctx_id = 2, ctx_state = Running\<rparr>,
      scriptProcessorRef = Some 3,
      effects = [Connect 0, GetUserMedia, CaptureWired 1 2 3], fresh = 4,
      isConnecting = False, isActive = True, transcription = [],
      currentInterim = empty_turn\<rparr>"
  by (simp add: active0_def connecting0_def startConversation_def live_chat_init_def
      onopen_def onopen_resume_def requestMicrophone_def wireCapture_def Let_def)

section \<open>Start, stop and the callbacks of the backend\<close>

lemma startConversation_noop:
  "isActive s \<or> isConnecting s \<Longrightarrow> startConversation setup_throws s = (None, s)"
  by (simp add: startConversation_def)

lemma startTranscription_noop:
  "isRecording s \<Longrightarrow> startTranscription setup_throws s = (None, s)"
  by (simp add: startTranscription_def)

lemma startConversation_Some:
  assumes "startConversation False s = (Some cl, s1)"
  shows "\<not> isActive s" "\<not> isConnecting s"
    and "cl = \<lparr>nextStartTime = 0, capturedInterim = currentInterim s, scheduled = []\<rparr>"
    and "s1 = s\<lparr>isConnecting := True, transcription := [], currentInterim := empty_turn,
                sessionRef := Some (fresh s), effects := effects s @ [Connect (fresh s)],
                fresh := fresh s + 1\<rparr>"
  using assms by (auto simp: startConversation_def Let_def split: if_splits)

lemma start0: "startConversation False live_chat_init = (Some session0, connecting0)"
  by (simp add: connecting0_def startConversation_def live_chat_init_def session0_def Let_def)

lemma connecting0_eq:
  "connecting0 =
     \<lparr>sessionRef = Some 0, streamRef = None, audioContextRef = None,
      scriptProcessorRef = None, effects = [Connect 0], fresh = 1,
      isConnecting = True, isActive = False, transcription = [],
      currentInterim = empty_turn\<rparr>"
  by (simp add: connecting0_def startConversation_def live_chat_init_def Let_def)

lemma onopen_granted:
  "onopen_resume Granted (onopen s) =
     (None,
      s\<lparr>streamRef := Some (fresh s),
        audioContextRef := Some \<lparr>ctx_id = fresh s + 1, ctx_state = Running\<rparr>,
        scriptProcessorRef := Some (fresh s + 2),
        effects := effects s @ [GetUserMedia, CaptureWired (fresh s) (fresh s + 1) (fresh s + 2)],
        fresh := fresh s + 3,
        isConnecting := False, isActive := True\<rparr>)"
  by (simp add: onopen_resume_def onopen_def requestMicrophone_def wireCapture_def Let_def)

lemma onopen_denied:
  "onopen_resume (Denied e) (onopen s) = (Some e, s\<lparr>effects := effects s @ [GetUserMedia]\<rparr>)"
  by (simp add: onopen_resume_def onopen_def requestMicrophone_def)

lemma stopConversation_fields:
  "sessionRef (stopConversation s) = None"
  "streamRef (stopConversation s) = None"
  "scriptProcessorRef (stopConversation s) = None"
  "fresh (stopConversation s) = fresh s"
  "\<not> isActive (stopConversation s)"
  "\<not> isConnecting (stopConversation s)"
  "transcription (stopConversation s) = transcription s"
  "currentInterim (stopConversation s) = currentInterim s"
  "effects (stopConversation s) = effects s @ teardown_sequence s"
  by (simp_all add: stopConversation_def release_refs effects_release)
    (simp_all add: release_defs split: option.splits)

text \<open>
  C1, as the code has it. When the teardown runs while a start is in flight, it clears
  the session reference, asks for the close of the pending backend session and leaves
  the state idle; the opened callback is not cancelled by it. When the callback arrives
  and the microphone is granted, it acquires the microphone, wires the capture graph and
  sets the state to active, with no session reference held.
\<close>

theorem opened_after_stop_acquires:
  assumes "startConversation False s = (Some cl, s1)"
  shows "sessionRef (stopConversation s1) = None
       \<and> \<not> isActive (stopConversation s1) \<and> \<not> isConnecting (stopConversation s1)
       \<and> SessionClose (fresh s) \<in> set (effects (stopConversation s1))
       \<and> fst (onopen_resume Granted (onopen (stopConversation s1))) = None
       \<and> isActive (snd (onopen_resume Granted (onopen (stopConversation s1))))
       \<and> sessionRef (snd (onopen_resume Granted (onopen (stopConversation s1)))) = None
       \<and> streamRef (snd (onopen_resume Granted (onopen (stopConversation s1)))) = Some (fresh s1)
       \<and> scriptProcessorRef (snd (onopen_resume Granted (onopen (stopConversation s1))))
           = Some (fresh s1 + 2)
       \<and> effects (snd (onopen_resume Granted (onopen (stopConversation s1))))
           = effects (stopConversation s1)
             @ [GetUserMedia, CaptureWired (fresh s1) (fresh s1 + 1) (fresh s1 + 2)]"
proof -
  have "sessionRef s1 = Some (fresh s)"
    using startConversation_Some(4) [OF assms] by simp
  then have "SessionClose (fresh s) \<in> set (teardown_sequence s1)"
    by (simp add: teardown_sequence_def)
  then have "SessionClose (fresh s) \<in> set (effects (stopConversation s1))"
    by (simp add: stopConversation_fields)
  then show ?thesis
    by (simp add: onopen_granted stopConversation_fields)
qed

text \<open>The first start of the component, stopped before the backend opens.\<close>

theorem opened_after_stop_acquires_witness:
  "startConversation False live_chat_init = (Some session0, connecting0)
   \<and> sessionRef (stopConversation connecting0) = None
   \<and> isActive (snd (onopen_resume Granted (onopen (stopConversation connecting0))))
   \<and> streamRef (snd (onopen_resume Granted (onopen (stopConversation connecting0)))) = Some 1
   \<and> effects (snd (onopen_resume Granted (onopen (stopConversation connecting0))))
       = [Connect 0, SessionClose 0, GetUserMedia, CaptureWired 1 2 3]"
proof -
  note a = opened_after_stop_acquires [OF start0]
  have "effects (stopConversation connecting0) = [Connect 0, SessionClose 0]"
    by (simp add: stopConversation_fields connecting0_eq teardown_sequence_def)
  moreover have "fresh connecting0 = 1" by (simp add: connecting0_eq)
  ultimately show ?thesis using a start0 by simp
qed

text \<open>
  C1 as stated fails there: after the late opened callback the session is active, the
  microphone stream is held and the capture graph is wired.
\<close>

theorem opened_after_stop_counterexample:
  "isActive opened_after_stop
   \<and> streamRef opened_after_stop = Some 1
   \<and> scriptProcessorRef opened_after_stop = Some 3
   \<and> effects opened_after_stop = [Connect 0, SessionClose 0, GetUserMedia, CaptureWired 1 2 3]"
  by (simp add: opened_after_stop_def onopen_granted stopConversation_fields connecting0_eq
      teardown_sequence_def)

text \<open>
  C5 at its failing input: the first start of the component, the backend opens, the
  microphone is refused. The rejection is the one of the promise of the \<^verbatim>\<open>onopen\<close>
  callback, which the \<^verbatim>\<open>try\<close> block of \<^verbatim>\<open>startConversation\<close> does not see: the state
  stays connecting, the session reference is kept, and no close is asked of the backend
  session.
\<close>

theorem mic_denied_stays_connecting:
  "fst mic_denied = Some NotAllowedError
   \<and> isConnecting (snd mic_denied) \<and> \<not> isActive (snd mic_denied)
   \<and> sessionRef (snd mic_denied) = Some 0
   \<and> effects (snd mic_denied) = [Connect 0, GetUserMedia]"
  by (simp add: mic_denied_def onopen_denied connecting0_eq)

text \<open>
  C6, as the code has it. On a remote close LiveChat runs the same teardown as
  \<^verbatim>\<open>stop()\<close>: with the session reference still held, it asks for the close of the
  backend session and clears the reference, then stops the microphone tracks,
  disconnects the capture node and closes the audio context, and the state is idle.
\<close>

theorem remote_close_teardown:
  assumes "sessionRef s = Some p" and "streamRef s = Some m"
    and "scriptProcessorRef s = Some n"
    and "audioContextRef s = Some c" and "ctx_state c \<noteq> Closed"
  shows "effects (onclose s) =
           effects s @ [SessionClose p, TracksStop m, ProcessorDisconnect n, ContextClose (ctx_id c)]
       \<and> sessionRef (onclose s) = None \<and> streamRef (onclose s) = None
       \<and> scriptProcessorRef (onclose s) = None
       \<and> audioContextRef (onclose s) = Some (c\<lparr>ctx_state := Closed\<rparr>)
       \<and> \<not> isActive (onclose s) \<and> \<not> isConnecting (onclose s)"
  using assms
  by (simp add: onclose_def stopConversation_fields teardown_sequence_def)
    (simp add: stopConversation_def release_refs)

text \<open>The remote close of the active session.\<close>

theorem remote_close_teardown_witness:
  "sessionRef active0 = Some 0 \<and> streamRef active0 = Some 1
   \<and> scriptProcessorRef active0 = Some 3
   \<and> audioContextRef active0 = Some \<lparr>ctx_id = 2, ctx_state = Running\<rparr>
   \<and> effects (onclose active0) =
     [Connect 0, GetUserMedia, CaptureWired 1 2 3,
      SessionClose 0, TracksStop 1, ProcessorDisconnect 3, ContextClose 2]
   \<and> audioContextRef (onclose active0) = Some \<lparr>ctx_id = 2, ctx_state = Closed\<rparr>
   \<and> \<not> isActive (onclose active0)"
  using remote_close_teardown [of active0 0 1 3 "\<lparr>ctx_id = 2, ctx_state = Running\<rparr>"]
  by (simp add: active0_eq)

text \<open>
  C6 as stated fails there: the remote close of the active session asks for the close
  of the backend session.
\<close>

theorem remote_close_counterexample:
  "sessionRef active0 = Some 0 \<and> SessionClose 0 \<in> set (effects (onclose active0))"
  by (simp add: onclose_def stopConversation_fields teardown_sequence_def active0_eq)

section \<open>Transcript accumulation\<close>

lemma onmessage_text:
  assumes "inlineData m = None"
  shows "onmessage cl t m s =
     (None, cl,
      (if turnComplete m
       then s\<lparr>transcription := transcription s @ [capturedInterim cl],
              currentInterim := empty_turn\<rparr>
       else s\<lparr>currentInterim :=
              \<lparr>user = user (currentInterim s)
                  @ (case inputTranscription m of None \<Rightarrow> [] | Some x \<Rightarrow> x),
               model = model (currentInterim s)
                  @ (case outputTranscription m of None \<Rightarrow> [] | Some x \<Rightarrow> x)\<rparr>\<rparr>))"
  using assms by (simp add: onmessage_def Let_def split: option.splits)

lemma onmessage_transcript:
  "transcription (snd (snd (onmessage cl t m s))) =
     (if turnComplete m then transcription s @ [capturedInterim cl] else transcription s)"
  "turnComplete m \<Longrightarrow> currentInterim (snd (snd (onmessage cl t m s))) = empty_turn"
  "capturedInterim (fst (snd (onmessage cl t m s))) = capturedInterim cl"
  by (simp_all add: onmessage_def Let_def split: option.splits sum.splits)

lemma js_append: "js (a @ b) = js a @ js b"
  by (simp add: js_def)

lemma hello_run_eq:
  "hello_run = (session0, active0\<lparr>transcription := [empty_turn], currentInterim := empty_turn\<rparr>)"
  by (simp add: hello_run_def onmessage_text input_delta_def turn_complete_def session0_def
      active0_eq)

lemma recordingT_eq:
  "recordingT =
     \<lparr>sessionRef = Some 0, streamRef = Some 1,
      audioContextRef = Some \<lparr>ctx_id = 2, ctx_state = Running\<rparr>,
      scriptProcessorRef = Some 3,
      effects = [Connect 0, GetUserMedia, CaptureWired 1 2 3], fresh = 4,
      isRecording = True, transcriptionT = [], finalizedTranscription = []\<rparr>"
  by (simp add: recordingT_def recording_requested_def startTranscription_def
      transcriber_init_def onopenT_def onopenT_resume_def requestMicrophone_def
      wireCapture_def Let_def)

text \<open>
  C2 at its failing input, scenario A of the specification: after the deltas "Hel" and
  "lo" the interim buffer holds "Hello", but the turn that the turn-complete mark appends
  is the \<^verbatim>\<open>currentInterim\<close> the callback closed over when the session was started, the
  empty turn; both buffers are empty afterwards. The Transcriber does the same with its
  \<^verbatim>\<open>transcription\<close>: nothing is appended to the finalized text, and the buffer is
  cleared.
\<close>

theorem turn_complete_appends_stale_turn:
  "startConversation False live_chat_init = (Some session0, connecting0)
   \<and> capturedInterim session0 = empty_turn
   \<and> currentInterim
         (snd (run_messages session0 active0
                 [(0, input_delta (js ''Hel'')), (0, input_delta (js ''lo''))]))
       = \<lparr>user = js ''Hello'', model = []\<rparr>
   \<and> transcription (snd hello_run) = [\<lparr>user = [], model = []\<rparr>]
   \<and> currentInterim (snd hello_run) = \<lparr>user = [], model = []\<rparr>
   \<and> startTranscription False transcriber_init = (Some sessionT0, recording_requested)
   \<and> finalizedTranscription hello_runT = []
   \<and> transcriptionT hello_runT = []"
proof -
  have "currentInterim
         (snd (run_messages session0 active0
                 [(0, input_delta (js ''Hel'')), (0, input_delta (js ''lo''))]))
       = \<lparr>user = js ''Hel'' @ js ''lo'', model = []\<rparr>"
    by (simp add: onmessage_text input_delta_def active0_eq empty_turn_def)
  moreover have "js ''Hel'' @ js ''lo'' = js ''Hello''"
    by (simp flip: js_append)
  moreover have "startTranscription False transcriber_init = (Some sessionT0, recording_requested)"
    by (simp add: recording_requested_def startTranscription_def transcriber_init_def
        sessionT0_def)
  moreover have "finalizedTranscription hello_runT = []" "transcriptionT hello_runT = []"
    by (simp_all add: hello_runT_def onmessageT_def input_delta_def turn_complete_def
        sessionT0_def recordingT_eq)
  ultimately show ?thesis
    by (simp add: start0 hello_run_eq session0_def empty_turn_def)
qed

text \<open>
  C4, as the code has it. The teardown of LiveChat, on every path (stop, error, remote
  close, unmount), leaves the transcript log and the interim buffers as they are. In the
  Transcriber the stop button appends the buffered text once to the finalized text and
  clears the buffer, with no turn-complete mark needed.
\<close>

theorem teardown_flush:
  "transcription (stopConversation s) = transcription s
   \<and> currentInterim (stopConversation s) = currentInterim s
   \<and> transcription (onerror s) = transcription s
   \<and> currentInterim (onerror s) = currentInterim s
   \<and> transcription (onclose s) = transcription s
   \<and> currentInterim (onclose s) = currentInterim s
   \<and> transcription (unmount s) = transcription s
   \<and> currentInterim (unmount s) = currentInterim s
   \<and> finalizedTranscription (clickStop t) = finalizedTranscription t @ transcriptionT t
   \<and> transcriptionT (clickStop t) = []
   \<and> \<not> isRecording (clickStop t)"
  by (simp add: onerror_def onclose_def unmount_def stopConversation_fields clickStop_def
      stopTranscription_def)

text \<open>The stop button of the Transcriber with "Hel" in the buffer.\<close>

theorem teardown_flush_witness:
  "finalizedTranscription (clickStop (recordingT\<lparr>transcriptionT := js ''Hel''\<rparr>)) = js ''Hel''
   \<and> transcriptionT (clickStop (recordingT\<lparr>transcriptionT := js ''Hel''\<rparr>)) = []
   \<and> transcription (stopConversation active0) = []"
  using teardown_flush [of active0 "recordingT\<lparr>transcriptionT := js ''Hel''\<rparr>"]
  by (simp add: recordingT_eq active0_eq)

text \<open>
  C4 as stated fails in LiveChat: stopped with "Hel" in the interim buffer, the session
  is idle, the transcript log is still empty and the buffer still holds "Hel".
\<close>

theorem teardown_flush_counterexample:
  "currentInterim stopped_mid_turn = \<lparr>user = js ''Hel'', model = []\<rparr>
   \<and> currentInterim stopped_mid_turn \<noteq> empty_turn
   \<and> transcription stopped_mid_turn = []
   \<and> \<not> isActive stopped_mid_turn"
  by (simp add: stopped_mid_turn_def stopConversation_fields onmessage_text input_delta_def
      active0_eq empty_turn_def js_def)

text \<open>
  C8 at its failing input: the record button of the Transcriber pressed twice before
  the backend opens. \<^verbatim>\<open>isRecording\<close> is set by the opened callback only, so the guard
  lets the second call pass: a second backend session is opened and replaces the first
  in the session reference. (In LiveChat the guard reads \<^verbatim>\<open>isConnecting\<close> too, and
  the call is a no-op: \<open>startConversation_noop\<close>.)
\<close>

theorem transcriber_second_start:
  "startTranscription False transcriber_init = (Some sessionT0, recording_requested)
   \<and> \<not> isRecording recording_requested
   \<and> sessionRef recording_requested = Some 0
   \<and> effects recording_requested = [Connect 0]
   \<and> startTranscription False recording_requested = (Some sessionT0, recording_requested_twice)
   \<and> sessionRef recording_requested_twice = Some 1
   \<and> effects recording_requested_twice = [Connect 0, Connect 1]"
  by (simp add: recording_requested_twice_def recording_requested_def startTranscription_def
      transcriber_init_def sessionT0_def)

section \<open>Repeated teardown of the Transcriber\<close>

lemma recording_againT_eq:
  "recording_againT =
     \<lparr>sessionRef = Some 4, streamRef = Some 5,
      audioContextRef = Some \<lparr>ctx_id = 6, ctx_state = Running\<rparr>,
      scriptProcessorRef = Some 7,
      effects = [Connect 0, GetUserMedia, CaptureWired 1 2 3,
                 Connect 4, GetUserMedia, CaptureWired 5 6 7],
      fresh = 8,
      isRecording = True, transcriptionT = js ''Hel'', finalizedTranscription = []\<rparr>"
  by (simp add: recording_againT_def closed_remotelyT_def oncloseT_def onmessageT_def
      input_delta_def recordingT_eq startTranscription_def onopenT_def onopenT_resume_def
      requestMicrophone_def wireCapture_def Let_def)

text \<open>
  C9 at its failing input. The Transcriber hears "Hel", the backend closes the session,
  recording is started again and the backend opens; then the stop button is pressed and
  an error of the second session arrives. The first call of \<^verbatim>\<open>stopTranscription\<close> is
  the one teardown sequence and appends "Hel"; the second, the instance the callbacks of
  the session closed over, makes no call on a resource, but it is not a no-op: it
  appends "Hel" again. Two error events in place of the button and the error end the
  same way.
\<close>

theorem stale_stop_appends_again:
  "fst (startTranscription False closed_remotelyT) = Some sessionT1
   \<and> isRecording recording_againT
   \<and> transcriptionT recording_againT = js ''Hel''
   \<and> effects stopped_onceT =
       effects recording_againT
       @ [SessionClose 4, TracksStop 5, ProcessorDisconnect 7, ContextClose 6]
   \<and> finalizedTranscription stopped_onceT = js ''Hel''
   \<and> transcriptionT stopped_onceT = []
   \<and> teardown_sequence stopped_onceT = []
   \<and> effects stopped_twiceT = effects stopped_onceT @ [ConsoleError]
   \<and> finalizedTranscription stopped_twiceT = js ''HelHel''
   \<and> finalizedTranscription stopped_twiceT \<noteq> finalizedTranscription stopped_onceT
   \<and> finalizedTranscription (onerrorT sessionT1 (onerrorT sessionT1 recording_againT))
       = js ''HelHel''"
proof -
  have start: "fst (startTranscription False closed_remotelyT) = Some sessionT1"
    by (simp add: closed_remotelyT_def oncloseT_def onmessageT_def input_delta_def
        recordingT_eq startTranscription_def sessionT1_def)
  have once: "stopped_onceT = stopTranscription (js ''Hel'') recording_againT"
    by (simp add: stopped_onceT_def clickStop_def recording_againT_eq)
  have seq: "teardown_sequence recording_againT =
      [SessionClose 4, TracksStop 5, ProcessorDisconnect 7, ContextClose 6]"
    by (simp add: recording_againT_eq teardown_sequence_def)
  have fin1: "finalizedTranscription stopped_onceT = js ''Hel''"
    by (simp add: once stopTranscription_def recording_againT_eq)
  have buf1: "transcriptionT stopped_onceT = []"
    by (simp add: once stopTranscription_def)
  have none: "teardown_sequence stopped_onceT = []"
    by (simp add: once stopTranscription_release)
  have "teardown_sequence (stopped_onceT\<lparr>effects := e\<rparr>) = teardown_sequence stopped_onceT" for e
    by (simp add: teardown_sequence_def)
  then have eff2: "effects stopped_twiceT = effects stopped_onceT @ [ConsoleError]"
    by (simp add: stopped_twiceT_def onerrorT_def stopTranscription_release(1) none)
  have hh: "js ''Hel'' @ js ''Hel'' = js ''HelHel''"
    by (simp flip: js_append)
  have fin2: "finalizedTranscription stopped_twiceT = js ''HelHel''"
    using hh by (simp add: stopped_twiceT_def onerrorT_def sessionT1_def stopTranscription_def fin1)
  have ne: "js ''HelHel'' \<noteq> js ''Hel''"
    by (simp add: js_def)
  have fin3: "finalizedTranscription (onerrorT sessionT1 (onerrorT sessionT1 recording_againT))
       = js ''HelHel''"
    using hh by (simp add: onerrorT_def sessionT1_def stopTranscription_def recording_againT_eq)
  have eff1: "effects stopped_onceT =
      effects recording_againT
      @ [SessionClose 4, TracksStop 5, ProcessorDisconnect 7, ContextClose 6]"
    by (simp add: once stopTranscription_release(1) seq)
  have rec: "isRecording recording_againT" "transcriptionT recording_againT = js ''Hel''"
    by (simp_all add: recording_againT_eq)
  show ?thesis
    unfolding fin2 fin1 using start rec eff1 buf1 none eff2 ne fin3 by simp
qed

section \<open>Playback scheduling\<close>

lemma onmessage_chat_state:
  "snd (snd (onmessage cl t m s)) = snd (snd (onmessage cl t (m\<lparr>inlineData := None\<rparr>) s))"
  by (simp add: onmessage_def Let_def split: option.splits sum.splits)

lemma onmessage_no_audio:
  assumes "\<not> has_audio m"
  shows "fst (onmessage cl t m s) = None" and "fst (snd (onmessage cl t m s)) = cl"
  using assms by (simp_all add: onmessage_def has_audio_def Let_def split: option.splits)

lemma onmessage_audio_ok:
  assumes "has_audio m" and "decoded_audio m = Inr b"
  shows "fst (onmessage cl t m s) = None"
    and "fst (snd (onmessage cl t m s)) =
           cl\<lparr>nextStartTime := max (nextStartTime cl) t + duration b,
              scheduled := scheduled cl @ [(max (nextStartTime cl) t, duration b)]\<rparr>"
  using assms
  by (auto simp: onmessage_def has_audio_def decoded_audio_def Let_def
      split: option.splits sum.splits)

lemma onmessage_audio_fail:
  assumes "has_audio m" and "decoded_audio m = Inl e"
  shows "fst (onmessage cl t m s) = Some e"
    and "fst (snd (onmessage cl t m s)) = cl\<lparr>nextStartTime := max (nextStartTime cl) t\<rparr>"
  using assms
  by (auto simp: onmessage_def has_audio_def decoded_audio_def Let_def
      split: option.splits sum.splits)

lemma no_overlap_snoc:
  assumes "no_overlap xs" and "xs \<noteq> [] \<Longrightarrow> fst (last xs) + snd (last xs) \<le> t"
  shows "no_overlap (xs @ [(t, d)])"
  using assms by (induction xs rule: no_overlap.induct) auto

lemma onmessage_keeps_order:
  assumes "no_overlap (scheduled cl)"
    and "scheduled cl \<noteq> [] \<Longrightarrow>
           fst (last (scheduled cl)) + snd (last (scheduled cl)) \<le> nextStartTime cl"
  shows "no_overlap (scheduled (fst (snd (onmessage cl t m s))))"
    and "scheduled (fst (snd (onmessage cl t m s))) \<noteq> [] \<Longrightarrow>
           fst (last (scheduled (fst (snd (onmessage cl t m s)))))
             + snd (last (scheduled (fst (snd (onmessage cl t m s)))))
           \<le> nextStartTime (fst (snd (onmessage cl t m s)))"
proof -
  consider "\<not> has_audio m" | e where "has_audio m" "decoded_audio m = Inl e"
    | b where "has_audio m" "decoded_audio m = Inr b"
    by (cases "decoded_audio m") auto
  then have "no_overlap (scheduled (fst (snd (onmessage cl t m s))))
      \<and> (scheduled (fst (snd (onmessage cl t m s))) \<noteq> [] \<longrightarrow>
           fst (last (scheduled (fst (snd (onmessage cl t m s)))))
             + snd (last (scheduled (fst (snd (onmessage cl t m s)))))
           \<le> nextStartTime (fst (snd (onmessage cl t m s))))"
  proof cases
    case 1
    with assms show ?thesis by (simp add: onmessage_no_audio)
  next
    case 2
    with assms show ?thesis by (auto simp: onmessage_audio_fail)
  next
    case 3
    have "no_overlap (scheduled cl @ [(max (nextStartTime cl) t, duration b)])"
      using assms by (intro no_overlap_snoc) auto
    with 3 show ?thesis by (simp add: onmessage_audio_ok)
  qed
  then show "no_overlap (scheduled (fst (snd (onmessage cl t m s))))"
    and "scheduled (fst (snd (onmessage cl t m s))) \<noteq> [] \<Longrightarrow>
           fst (last (scheduled (fst (snd (onmessage cl t m s)))))
             + snd (last (scheduled (fst (snd (onmessage cl t m s)))))
           \<le> nextStartTime (fst (snd (onmessage cl t m s)))"
    by simp_all
qed

lemma run_messages_keeps_order:
  assumes "no_overlap (scheduled cl)"
    and "scheduled cl \<noteq> [] \<Longrightarrow>
           fst (last (scheduled cl)) + snd (last (scheduled cl)) \<le> nextStartTime cl"
  shows "no_overlap (scheduled (fst (run_messages cl s ms)))"
  using assms
proof (induction ms arbitrary: cl s)
  case Nil
  then show ?case by simp
next
  case (Cons tm ms)
  obtain t m where tm: "tm = (t, m)" by (cases tm)
  obtain e cl' s' where step: "onmessage cl t m s = (e, cl', s')"
    by (cases "onmessage cl t m s")
  have "no_overlap (scheduled cl')"
    and "scheduled cl' \<noteq> [] \<Longrightarrow>
           fst (last (scheduled cl')) + snd (last (scheduled cl')) \<le> nextStartTime cl'"
    using onmessage_keeps_order [OF Cons.prems, of t m s] by (simp_all add: step)
  then have "no_overlap (scheduled (fst (run_messages cl' s' ms)))"
    by (rule Cons.IH)
  then show ?case by (simp add: tm step)
qed

lemma run_messages_cursor:
  assumes "no_underrun cl s ms"
  shows "nextStartTime (fst (run_messages cl s ms))
           - sum_list (map snd (scheduled (fst (run_messages cl s ms))))
         = nextStartTime cl - sum_list (map snd (scheduled cl))"
  using assms
proof (induction ms arbitrary: cl s)
  case Nil
  then show ?case by simp
next
  case (Cons tm ms)
  obtain t m where tm: "tm = (t, m)" by (cases tm)
  obtain e cl' s' where step: "onmessage cl t m s = (e, cl', s')"
    by (cases "onmessage cl t m s")
  from Cons.prems have late: "has_audio m \<Longrightarrow> t \<le> nextStartTime cl"
    and rest: "no_underrun cl' s' ms"
    by (simp_all add: tm step)
  have cl': "cl' = fst (snd (onmessage cl t m s))" by (simp add: step)
  consider "\<not> has_audio m" | e where "has_audio m" "decoded_audio m = Inl e"
    | b where "has_audio m" "decoded_audio m = Inr b"
    by (cases "decoded_audio m") auto
  then have "nextStartTime cl' - sum_list (map snd (scheduled cl'))
      = nextStartTime cl - sum_list (map snd (scheduled cl))"
  proof cases
    case 1
    then show ?thesis by (simp add: cl' onmessage_no_audio)
  next
    case 2
    with late show ?thesis by (simp add: cl' onmessage_audio_fail max_absorb1)
  next
    case 3
    with late show ?thesis by (simp add: cl' onmessage_audio_ok max_absorb1)
  qed
  with Cons.IH [OF rest] show ?case by (simp add: tm step)
qed

lemma one_frame_chunk:
  "has_audio (audio_chunk (js ''AAA=''))"
  "decoded_audio (audio_chunk (js ''AAA='')) = Inr \<lparr>sampleRate = 24000, channels = [[0]]\<rparr>"
  "duration \<lparr>sampleRate = 24000, channels = [[0]]\<rparr> = 1 / 24000"
  by (simp_all add: has_audio_def decoded_audio_def audio_chunk_def js_def decode_def atob_def
      is_ascii_whitespace_def strip_padding_def pad_char_def b64val_def Let_def
      decodeAudioData_def Int16Array_def duration_def)

text \<open>
  C3. The cursor \<^verbatim>\<open>nextStartTime\<close> of a session starts at 0, the current time of the
  output context created with it, and nothing is scheduled. After any run of messages
  \<open>ms\<close>: every source starts no earlier than the one before it ends; with no underrun
  in \<open>ms\<close> the cursor is the sum of the durations scheduled so far; and a next chunk
  that decodes to the buffer \<open>b\<close>, arriving when the clock shows \<open>t\<close>, is started at
  the maximum of the cursor and \<open>t\<close>, and the cursor moves to that start plus the
  duration of \<open>b\<close>.
\<close>

theorem playback_schedule:
  assumes "startConversation False s0 = (Some cl0, s1)"
    and "run_messages cl0 s ms = (cl, s')"
  shows "nextStartTime cl0 = 0 \<and> scheduled cl0 = []
       \<and> no_overlap (scheduled cl)
       \<and> (no_underrun cl0 s ms \<longrightarrow> nextStartTime cl = sum_list (map snd (scheduled cl)))
       \<and> (has_audio m \<and> decoded_audio m = Inr b \<longrightarrow>
            scheduled (fst (snd (onmessage cl t m s')))
              = scheduled cl @ [(max (nextStartTime cl) t, duration b)]
            \<and> nextStartTime (fst (snd (onmessage cl t m s')))
              = max (nextStartTime cl) t + duration b)"
proof -
  have init: "nextStartTime cl0 = 0" "scheduled cl0 = []"
    using startConversation_Some(3) [OF assms(1)] by simp_all
  have cl: "cl = fst (run_messages cl0 s ms)" by (simp add: assms(2))
  have order: "no_overlap (scheduled cl)"
    unfolding cl by (rule run_messages_keeps_order) (simp_all add: init)
  have sum: "nextStartTime cl = sum_list (map snd (scheduled cl))" if "no_underrun cl0 s ms"
    using run_messages_cursor [OF that] by (simp add: cl init)
  show ?thesis
    using init order sum by (simp add: onmessage_audio_ok)
qed

lemma one_frame_onmessage:
  "onmessage cl t (audio_chunk (js ''AAA='')) s =
     (None,
      cl\<lparr>nextStartTime := max (nextStartTime cl) t + 1 / 24000,
         scheduled := scheduled cl @ [(max (nextStartTime cl) t, 1 / 24000)]\<rparr>,
      s)"
proof -
  have "snd (snd (onmessage cl t (audio_chunk (js ''AAA='')) s)) = s"
    by (simp add: onmessage_chat_state onmessage_text audio_chunk_def)
  then show ?thesis
    using onmessage_audio_ok [OF one_frame_chunk(1,2), of cl t s]
    by (simp add: one_frame_chunk(3) prod_eq_iff)
qed

lemma two_chunks_run:
  "run_messages session0 active0 two_chunks =
     (\<lparr>nextStartTime = 1 / 12000, capturedInterim = empty_turn,
       scheduled = [(0, 1 / 24000), (1 / 24000, 1 / 24000)]\<rparr>, active0)"
  by (simp add: two_chunks_def one_frame_onmessage session0_def)

lemma two_chunks_no_underrun: "no_underrun session0 active0 two_chunks"
  by (simp add: two_chunks_def one_frame_onmessage one_frame_chunk(1) session0_def)

text \<open>
  Two chunks of one frame, the second arriving while the first plays, then a third
  after the clock has passed the cursor.
\<close>

theorem playback_schedule_witness:
  "startConversation False live_chat_init = (Some session0, connecting0)
   \<and> run_messages session0 active0 two_chunks =
       (\<lparr>nextStartTime = 1 / 12000, capturedInterim = empty_turn,
         scheduled = [(0, 1 / 24000), (1 / 24000, 1 / 24000)]\<rparr>, active0)
   \<and> no_underrun session0 active0 two_chunks
   \<and> no_overlap [(0, 1 / 24000), (1 / 24000, 1 / 24000 :: rat)]
   \<and> sum_list (map snd [(0, 1 / 24000), (1 / 24000, 1 / 24000 :: rat)]) = 1 / 12000
   \<and> has_audio (audio_chunk (js ''AAA=''))
   \<and> decoded_audio (audio_chunk (js ''AAA='')) = Inr \<lparr>sampleRate = 24000, channels = [[0]]\<rparr>
   \<and> scheduled (fst (snd (onmessage (fst (run_messages session0 active0 two_chunks)) 1
                              (audio_chunk (js ''AAA='')) active0)))
       = [(0, 1 / 24000), (1 / 24000, 1 / 24000), (1, 1 / 24000)]
   \<and> nextStartTime (fst (snd (onmessage (fst (run_messages session0 active0 two_chunks)) 1
                              (audio_chunk (js ''AAA='')) active0)))
       = 24001 / 24000"
proof -
  note run = two_chunks_run
  note under = two_chunks_no_underrun
  note a = playback_schedule [OF start0 run, of "audio_chunk (js ''AAA='')"
      "\<lparr>sampleRate = 24000, channels = [[0]]\<rparr>" 1]
  show ?thesis
    using a under by (simp add: start0 run one_frame_chunk)
qed

text \<open>
  C7, as the code has it. A chunk whose data fails to decode rejects the promise of its
  \<^verbatim>\<open>onmessage\<close> call only: nothing is scheduled for it, the transcript part of its
  message is handled as without the data, and a later chunk is decoded and scheduled as
  if the failed one had not arrived. The cursor is not advanced by a duration, but
  before the decoding it was raised to the maximum of itself and the current time.
\<close>

theorem failed_chunk:
  assumes "has_audio m" and "decoded_audio m = Inl e"
  shows "fst (onmessage cl t m s) = Some e
       \<and> scheduled (fst (snd (onmessage cl t m s))) = scheduled cl
       \<and> nextStartTime (fst (snd (onmessage cl t m s))) = max (nextStartTime cl) t
       \<and> snd (snd (onmessage cl t m s)) = snd (snd (onmessage cl t (m\<lparr>inlineData := None\<rparr>) s))
       \<and> (t \<le> t' \<and> has_audio m' \<longrightarrow>
            fst (snd (onmessage (fst (snd (onmessage cl t m s))) t' m' s'))
              = fst (snd (onmessage cl t' m' s')))"
proof -
  have later: "fst (snd (onmessage (cl\<lparr>nextStartTime := max (nextStartTime cl) t\<rparr>) t' m' s'))
      = fst (snd (onmessage cl t' m' s'))" if "t \<le> t'" "has_audio m'"
  proof (cases "decoded_audio m'")
    case (Inl e')
    with that show ?thesis by (simp add: onmessage_audio_fail max.assoc max_absorb2)
  next
    case (Inr b')
    with that show ?thesis by (simp add: onmessage_audio_ok max.assoc max_absorb2)
  qed
  show ?thesis
    using assms later onmessage_chat_state [of cl t m s]
    by (simp add: onmessage_audio_fail)
qed

lemma bad_chunk:
  "has_audio (audio_chunk (js ''A''))"
  "decoded_audio (audio_chunk (js ''A'')) = Inl InvalidCharacterError"
  by (simp_all add: has_audio_def decoded_audio_def audio_chunk_def js_def decode_def atob_def
      is_ascii_whitespace_def strip_padding_def)

text \<open>A chunk that is not base64 when the clock shows 1, then a chunk of one frame at 2.\<close>

theorem failed_chunk_witness:
  "has_audio (audio_chunk (js ''A''))
   \<and> decoded_audio (audio_chunk (js ''A'')) = Inl InvalidCharacterError
   \<and> fst (onmessage session0 1 (audio_chunk (js ''A'')) active0) = Some InvalidCharacterError
   \<and> scheduled (fst (snd (onmessage session0 1 (audio_chunk (js ''A'')) active0))) = []
   \<and> nextStartTime (fst (snd (onmessage session0 1 (audio_chunk (js ''A'')) active0))) = 1
   \<and> (1 :: rat) \<le> 2 \<and> has_audio (audio_chunk (js ''AAA=''))
   \<and> scheduled (fst (snd (onmessage (fst (snd (onmessage session0 1 (audio_chunk (js ''A'')) active0)))
                               2 (audio_chunk (js ''AAA='')) active0)))
       = [(2, 1 / 24000)]
   \<and> scheduled (fst (snd (onmessage session0 2 (audio_chunk (js ''AAA='')) active0)))
       = [(2, 1 / 24000)]"
proof -
  note a = failed_chunk [OF bad_chunk, of session0 1 active0 2 "audio_chunk (js ''AAA='')" active0]
  have "scheduled (fst (snd (onmessage session0 2 (audio_chunk (js ''AAA='')) active0)))
       = [(2, 1 / 24000)]"
    by (simp add: onmessage_audio_ok [OF one_frame_chunk(1,2)] one_frame_chunk(3) session0_def)
  then show ?thesis
    using a by (simp add: bad_chunk one_frame_chunk(1) session0_def)
qed

text \<open>
  C7 as stated fails there: the cursor was 0 and is 1 after the failed chunk.
\<close>

theorem failed_chunk_counterexample:
  "has_audio (audio_chunk (js ''A''))
   \<and> decoded_audio (audio_chunk (js ''A'')) = Inl InvalidCharacterError
   \<and> fst bad_chunk_run = Some InvalidCharacterError
   \<and> nextStartTime session0 = 0
   \<and> nextStartTime (fst (snd bad_chunk_run)) = 1"
  by (simp add: bad_chunk_run_def bad_chunk onmessage_audio_fail [OF bad_chunk] session0_def)

end
